theory Spec2Isabelle
  imports Main "HOL-Library.AList"
begin

section \<open>Values handled by the relay\<close>

text \<open>
  The server (\<^verbatim>\<open>src/unnamed/part_000\<close>) keeps two collections, \<^verbatim>\<open>connectedClients\<close>
  (a \<^verbatim>\<open>Set\<close> of WebSocket objects) and \<^verbatim>\<open>clientUsernames\<close> (a \<^verbatim>\<open>Map\<close> from WebSocket
  object to the username taken from its first accepted message), and reacts to four
  events of a connection: \<^verbatim>\<open>connection\<close>, \<^verbatim>\<open>message\<close>, \<^verbatim>\<open>close\<close> and \<^verbatim>\<open>error\<close>.

  A WebSocket object is compared by reference only, so it is modelled by a number that
  names it.
\<close>

type_synonym session = nat

text \<open>
  A value returned by \<^verbatim>\<open>JSON.parse\<close>. An object is the list of its own properties, read
  with \<open>map_of\<close>. A number is held as its canonical rendering (what \<^verbatim>\<open>String(n)\<close>
  returns, \<^verbatim>\<open>"0"\<close> for both zeros): the handlers only test a number for truthiness and
  interpolate it into a template literal, and both are functions of that rendering.
\<close>

datatype json =
    JNull
  | JBool bool
  | JNum string
  | JStr string
  | JArr "json list"
  | JObj "(string \<times> json) list"

datatype jserror = SyntaxError | TypeError | RangeError

text \<open>The inbound frame, as \<^verbatim>\<open>JSON.parse(data.toString())\<close> sees it: the call either
  throws a \<^verbatim>\<open>SyntaxError\<close> or returns a value.\<close>

datatype frame = Malformed | Parsed json

text \<open>JavaScript truthiness of a parsed value (\<^verbatim>\<open>!v\<close> is its negation).\<close>

fun truthy :: "json \<Rightarrow> bool" where
  "truthy JNull = False"
| "truthy (JBool b) = b"
| "truthy (JNum r) = (r \<noteq> ''0'')"
| "truthy (JStr s) = (s \<noteq> [])"
| "truthy (JArr xs) = True"
| "truthy (JObj fs) = True"

text \<open>
  Reading one of the properties \<^verbatim>\<open>type\<close>, \<^verbatim>\<open>username\<close>, \<^verbatim>\<open>text\<close>, \<^verbatim>\<open>isTyping\<close> of a
  value other than \<^verbatim>\<open>null\<close>: \<open>None\<close> is \<^verbatim>\<open>undefined\<close>. Only an object can own such a
  property; no prototype defines one of these four names.
\<close>

fun field :: "json \<Rightarrow> string \<Rightarrow> json option" where
  "field (JObj fs) k = map_of fs k"
| "field v k = None"

text \<open>
  String conversion as a template literal performs it (\<^verbatim>\<open>`${v}`\<close>). An array joins the
  conversions of its elements with commas, \<^verbatim>\<open>null\<close> elements giving the empty string.
  An object yields \<^verbatim>\<open>[object Object]\<close> through \<^verbatim>\<open>Object.prototype.toString\<close>, unless
  it owns a property named \<^verbatim>\<open>toString\<close>: a parsed property is never callable, the
  inherited \<^verbatim>\<open>valueOf\<close> returns the object itself, and the conversion throws a
  \<^verbatim>\<open>TypeError\<close>.
\<close>

fun joinParts :: "(jserror + string) list \<Rightarrow> jserror + string" where
  "joinParts [] = Inr []"
| "joinParts [p] = p"
| "joinParts (p # q # ps) =
     (case p of
        Inl e \<Rightarrow> Inl e
      | Inr s \<Rightarrow> (case joinParts (q # ps) of
                   Inl e \<Rightarrow> Inl e
                 | Inr t \<Rightarrow> Inr (s @ '','' @ t)))"

fun toString :: "json \<Rightarrow> jserror + string" where
  "toString JNull = Inr ''null''"
| "toString (JBool b) = Inr (if b then ''true'' else ''false'')"
| "toString (JNum r) = Inr r"
| "toString (JStr s) = Inr s"
| "toString (JArr xs) =
     joinParts (map (\<lambda>x. if x = JNull then Inr [] else toString x) xs)"
| "toString (JObj fs) =
     (if ''toString'' \<in> fst ` set fs then Inl TypeError else Inr ''[object Object]'')"

text \<open>
  What the server passes to \<^verbatim>\<open>JSON.stringify\<close> and sends. The three envelopes it builds
  itself carry a \<^verbatim>\<open>timestamp: Date.now()\<close> as well; the clock is not modelled and the
  field is left out. \<open>Relay\<close> is an inbound message sent on as it was parsed.
\<close>

datatype envelope =
    System string
  | OnlineCount nat
  | ErrorMessage string
  | Relay json

section \<open>Environment and server state\<close>

datatype ready_state = CONNECTING | OPEN | CLOSING | CLOSED

text \<open>
  What the server does not control: the \<^verbatim>\<open>readyState\<close> of every socket, whether a call
  of its \<^verbatim>\<open>send\<close> throws, and on which values the recursive built-ins
  \<^verbatim>\<open>JSON.stringify\<close> and \<^verbatim>\<open>Array.prototype.join\<close> exhaust the engine's stack and throw
  a \<^verbatim>\<open>RangeError\<close>.
\<close>

record environment =
  readyState :: "session \<Rightarrow> ready_state"
  sendThrows :: "session \<Rightarrow> bool"
  stringifyOverflows :: "json \<Rightarrow> bool"
  joinOverflows :: "json \<Rightarrow> bool"

text \<open>
  A value interpolated into a template literal: \<open>toString\<close>, where converting an array
  (which recurses through \<^verbatim>\<open>join\<close>) may run out of stack.
\<close>

fun interpolate :: "environment \<Rightarrow> json \<Rightarrow> jserror + string" where
  "interpolate env (JArr xs) =
     (if joinOverflows env (JArr xs) then Inl RangeError else toString (JArr xs))"
| "interpolate env v = toString v"

text \<open>
  \<^verbatim>\<open>JSON.stringify(messageObject)\<close>. The text is not modelled: a call that returns
  yields the envelope, standing for its serialisation. The envelopes the server builds
  are flat; a relayed message is as deep as its sender made it, and the call may throw.
\<close>

fun stringify :: "environment \<Rightarrow> envelope \<Rightarrow> jserror + envelope" where
  "stringify env (Relay m) = (if stringifyOverflows env m then Inl RangeError else Inr (Relay m))"
| "stringify env messageObject = Inr messageObject"

text \<open>
  \<^verbatim>\<open>connectedClients\<close> is a \<^verbatim>\<open>Set\<close>, iterated in insertion order: a list without
  repetition. \<^verbatim>\<open>clientUsernames\<close> is a \<^verbatim>\<open>Map\<close>: an association list, one entry per key.
\<close>

record server =
  connectedClients :: "session list"
  clientUsernames :: "(session \<times> json) list"

definition initial :: server where
  "initial = \<lparr>connectedClients = [], clientUsernames = []\<rparr>"

definition setAdd :: "session \<Rightarrow> session list \<Rightarrow> session list" where
  "setAdd ws cs = (if ws \<in> set cs then cs else cs @ [ws])"

definition setDelete :: "session \<Rightarrow> session list \<Rightarrow> session list" where
  "setDelete ws cs = removeAll ws cs"

definition mapHas :: "(session \<times> json) list \<Rightarrow> session \<Rightarrow> bool" where
  "mapHas m ws = (map_of m ws \<noteq> None)"

definition mapGet :: "(session \<times> json) list \<Rightarrow> session \<Rightarrow> json option" where
  "mapGet m ws = map_of m ws"

definition mapSet :: "session \<Rightarrow> json \<Rightarrow> (session \<times> json) list \<Rightarrow> (session \<times> json) list" where
  "mapSet ws v m = AList.update ws v m"

definition mapDelete :: "session \<Rightarrow> (session \<times> json) list \<Rightarrow> (session \<times> json) list" where
  "mapDelete ws m = AList.delete ws m"

text \<open>\<^verbatim>\<open>getOnlineCount\<close>: \<^verbatim>\<open>clientUsernames.size\<close>.\<close>

definition getOnlineCount :: "server \<Rightarrow> nat" where
  "getOnlineCount st = length (clientUsernames st)"

section \<open>Sending\<close>

text \<open>
  One observable effect per call of \<^verbatim>\<open>send\<close>: \<open>Sent\<close> when the call returns,
  \<open>SendError\<close> when it throws and the surrounding \<^verbatim>\<open>catch\<close> logs the error.
\<close>

datatype effect = Sent session envelope | SendError session envelope

fun recipient :: "effect \<Rightarrow> session" where
  "recipient (Sent c m) = c"
| "recipient (SendError c m) = c"

fun payload :: "effect \<Rightarrow> envelope" where
  "payload (Sent c m) = m"
| "payload (SendError c m) = m"

text \<open>
  A piece of handler code returns the new state, the sends it made, and the exception
  that left it (if any): state changes and sends made before a \<^verbatim>\<open>throw\<close> stay made.
  \<open>andThen\<close> is the semicolon: what follows runs only if what precedes did not throw.
\<close>

type_synonym completion = "server \<times> effect list \<times> jserror option"

definition andThen :: "completion \<Rightarrow> (server \<Rightarrow> completion) \<Rightarrow> completion" where
  "andThen c rest =
     (case c of
        (st1, out1, Some e) \<Rightarrow> (st1, out1, Some e)
      | (st1, out1, None) \<Rightarrow>
          (case rest st1 of (st2, out2, r) \<Rightarrow> (st2, out1 @ out2, r)))"

text \<open>\<^verbatim>\<open>try { client.send(...) } catch (error) { console.error(...) }\<close>\<close>

definition trySend :: "environment \<Rightarrow> session \<Rightarrow> envelope \<Rightarrow> effect" where
  "trySend env client m =
     (if sendThrows env client then SendError client m else Sent client m)"

text \<open>The \<^verbatim>\<open>forEach\<close> of \<^verbatim>\<open>broadcast\<close> over the clients in insertion order.\<close>

primrec broadcastLoop :: "environment \<Rightarrow> envelope \<Rightarrow> session list \<Rightarrow> effect list" where
  "broadcastLoop env m [] = []"
| "broadcastLoop env m (client # rest) =
     (if readyState env client = OPEN
      then trySend env client m # broadcastLoop env m rest
      else broadcastLoop env m rest)"

text \<open>
  \<^verbatim>\<open>broadcast\<close>: the message is serialised first, outside the \<^verbatim>\<open>try\<close> of the loop, so
  an exception of \<^verbatim>\<open>JSON.stringify\<close> leaves the function before anything is sent.
\<close>

definition broadcast :: "environment \<Rightarrow> envelope \<Rightarrow> server \<Rightarrow> completion" where
  "broadcast env messageObject st =
     (case stringify env messageObject of
        Inl e \<Rightarrow> (st, [], Some e)
      | Inr messageString \<Rightarrow>
          (st, broadcastLoop env messageString (connectedClients st), None))"

primrec broadcastExceptLoop ::
  "environment \<Rightarrow> envelope \<Rightarrow> session \<Rightarrow> session list \<Rightarrow> effect list" where
  "broadcastExceptLoop env m excludeClient [] = []"
| "broadcastExceptLoop env m excludeClient (client # rest) =
     (if client \<noteq> excludeClient \<and> readyState env client = OPEN
      then trySend env client m # broadcastExceptLoop env m excludeClient rest
      else broadcastExceptLoop env m excludeClient rest)"

definition broadcastExcept ::
  "environment \<Rightarrow> envelope \<Rightarrow> session \<Rightarrow> server \<Rightarrow> completion" where
  "broadcastExcept env messageObject excludeClient st =
     (case stringify env messageObject of
        Inl e \<Rightarrow> (st, [], Some e)
      | Inr messageString \<Rightarrow>
          (st, broadcastExceptLoop env messageString excludeClient (connectedClients st),
           None))"

definition broadcastOnlineCount :: "environment \<Rightarrow> server \<Rightarrow> completion" where
  "broadcastOnlineCount env st = broadcast env (OnlineCount (getOnlineCount st)) st"

section \<open>Connection handlers\<close>

text \<open>\<^verbatim>\<open>wss.on('connection')\<close>: register, then the welcome and the count to the new client.\<close>

definition onConnection :: "environment \<Rightarrow> session \<Rightarrow> server \<Rightarrow> server \<times> effect list" where
  "onConnection env ws st =
     (let st1 = st\<lparr>connectedClients := setAdd ws (connectedClients st)\<rparr>
      in (st1,
          [trySend env ws (System ''Welcome to the chat! You are now connected.''),
           trySend env ws (OnlineCount (getOnlineCount st1))]))"

text \<open>
  The block \<^verbatim>\<open>if (isNewUser && message.username) { ... }\<close>, which the chat-message
  branch (lines 294-308) and the typing branch (lines 325-339) both contain: store the
  username, log it through a template literal, broadcast the join text, broadcast the
  count.
\<close>

definition announceNewUser ::
  "environment \<Rightarrow> session \<Rightarrow> json \<Rightarrow> bool \<Rightarrow> server \<Rightarrow> completion" where
  "announceNewUser env ws username isNewUser st =
     (if isNewUser \<and> truthy username then
        (let st1 = st\<lparr>clientUsernames := mapSet ws username (clientUsernames st)\<rparr>
         in case interpolate env username of
              Inl e \<Rightarrow> (st1, [], Some e)
            | Inr name \<Rightarrow>
                andThen (broadcast env (System (name @ '' joined the chat'')) st1)
                        (broadcastOnlineCount env))
      else (st, [], None))"

text \<open>
  The log line that precedes the fan-out of an accepted message: a template literal
  that interpolates the username and then the text (or the flag).
\<close>

definition logLine :: "environment \<Rightarrow> json \<Rightarrow> json \<Rightarrow> server \<Rightarrow> completion" where
  "logLine env first second st =
     (case interpolate env first of
        Inl e \<Rightarrow> (st, [], Some e)
      | Inr a \<Rightarrow>
          (case interpolate env second of
             Inl e \<Rightarrow> (st, [], Some e)
           | Inr b \<Rightarrow> (st, [], None)))"

text \<open>The branch \<^verbatim>\<open>message.type === 'chat-message'\<close>.\<close>

definition chatMessage ::
  "environment \<Rightarrow> session \<Rightarrow> json \<Rightarrow> bool \<Rightarrow> server \<Rightarrow> completion" where
  "chatMessage env ws message isNewUser st =
     (case (field message ''username'', field message ''text'') of
        (Some username, Some text) \<Rightarrow>
          (if \<not> truthy username \<or> \<not> truthy text then (st, [], None)
           else
             andThen (announceNewUser env ws username isNewUser st) (\<lambda>st1.
             andThen (logLine env username text st1)
                     (broadcast env (Relay message))))
      | _ \<Rightarrow> (st, [], None))"

text \<open>The branch \<^verbatim>\<open>message.type === 'typing'\<close>.\<close>

definition typingMessage ::
  "environment \<Rightarrow> session \<Rightarrow> json \<Rightarrow> bool \<Rightarrow> server \<Rightarrow> completion" where
  "typingMessage env ws message isNewUser st =
     (case (field message ''username'', field message ''isTyping'') of
        (Some username, Some isTyping) \<Rightarrow>
          (if \<not> truthy username then (st, [], None)
           else
             andThen (announceNewUser env ws username isNewUser st) (\<lambda>st1.
             andThen (logLine env username isTyping st1)
                     (broadcastExcept env (Relay message) ws)))
      | _ \<Rightarrow> (st, [], None))"

text \<open>
  The body of the \<^verbatim>\<open>try\<close> after a successful parse. Reading \<^verbatim>\<open>message.type\<close> of
  \<^verbatim>\<open>null\<close> throws; every other value is dispatched on its \<^verbatim>\<open>type\<close>.
\<close>

definition tryBody :: "environment \<Rightarrow> session \<Rightarrow> json \<Rightarrow> server \<Rightarrow> completion" where
  "tryBody env ws message st =
     (let isNewUser = \<not> mapHas (clientUsernames st) ws
      in if message = JNull then (st, [], Some TypeError)
         else if field message ''type'' = Some (JStr ''chat-message'')
           then chatMessage env ws message isNewUser st
         else if field message ''type'' = Some (JStr ''typing'')
           then typingMessage env ws message isNewUser st
         else (st, [], None))"

text \<open>
  \<^verbatim>\<open>ws.on('message')\<close>: the \<^verbatim>\<open>catch\<close> answers any exception of the \<^verbatim>\<open>try\<close> with one
  error envelope to the sender, itself sent inside a \<^verbatim>\<open>try\<close>.
\<close>

definition errorReply :: "environment \<Rightarrow> session \<Rightarrow> effect" where
  "errorReply env ws = trySend env ws (ErrorMessage ''Failed to process message'')"

definition onMessage :: "environment \<Rightarrow> session \<Rightarrow> frame \<Rightarrow> server \<Rightarrow> server \<times> effect list" where
  "onMessage env ws fr st =
     (case fr of
        Malformed \<Rightarrow> (st, [errorReply env ws])
      | Parsed message \<Rightarrow>
          (case tryBody env ws message st of
             (st1, out, None) \<Rightarrow> (st1, out)
           | (st1, out, Some e) \<Rightarrow> (st1, out @ [errorReply env ws])))"

text \<open>
  \<^verbatim>\<open>ws.on('close')\<close>: nothing catches an exception here; the third component is the
  exception that leaves the listener.
\<close>

definition onClose :: "environment \<Rightarrow> session \<Rightarrow> server \<Rightarrow> completion" where
  "onClose env ws st =
     (let username = mapGet (clientUsernames st) ws;
          st1 = st\<lparr>connectedClients := setDelete ws (connectedClients st),
                   clientUsernames := mapDelete ws (clientUsernames st)\<rparr>
      in case username of
           None \<Rightarrow> (st1, [], None)
         | Some u \<Rightarrow>
             (if truthy u then
                (case interpolate env u of
                   Inl e \<Rightarrow> (st1, [], Some e)
                 | Inr name \<Rightarrow>
                     andThen (broadcast env (System (name @ '' left the chat'')) st1)
                             (broadcastOnlineCount env))
              else (st1, [], None)))"

text \<open>\<^verbatim>\<open>ws.on('error')\<close>: the same steps as \<^verbatim>\<open>close\<close>.\<close>

definition onError :: "environment \<Rightarrow> session \<Rightarrow> server \<Rightarrow> completion" where
  "onError env ws st =
     (let username = mapGet (clientUsernames st) ws;
          st1 = st\<lparr>connectedClients := setDelete ws (connectedClients st),
                   clientUsernames := mapDelete ws (clientUsernames st)\<rparr>
      in case username of
           None \<Rightarrow> (st1, [], None)
         | Some u \<Rightarrow>
             (if truthy u then
                (case interpolate env u of
                   Inl e \<Rightarrow> (st1, [], Some e)
                 | Inr name \<Rightarrow>
                     andThen (broadcast env (System (name @ '' left the chat'')) st1)
                             (broadcastOnlineCount env))
              else (st1, [], None)))"

section \<open>Runs of the server\<close>

text \<open>
  An event is delivered together with the state of the environment at that moment. The
  WebSocket library hands the server a new object per connection and emits
  \<^verbatim>\<open>message\<close> only for a socket it has announced and not yet closed; \<^verbatim>\<open>close\<close> and
  \<^verbatim>\<open>error\<close> may come in any number and order (an \<^verbatim>\<open>error\<close> is followed by a
  \<^verbatim>\<open>close\<close>). An exception that leaves a close or error listener ends the process;
  a run goes on regardless, which only adds states.
\<close>

datatype event =
    Connection session
  | Message session frame
  | Close session
  | Error session

fun enabled :: "event \<Rightarrow> server \<Rightarrow> bool" where
  "enabled (Connection ws) st = (ws \<notin> set (connectedClients st))"
| "enabled (Message ws fr) st = (ws \<in> set (connectedClients st))"
| "enabled (Close ws) st = True"
| "enabled (Error ws) st = True"

fun step :: "environment \<Rightarrow> event \<Rightarrow> server \<Rightarrow> server \<times> effect list" where
  "step env (Connection ws) st = onConnection env ws st"
| "step env (Message ws fr) st = onMessage env ws fr st"
| "step env (Close ws) st = (case onClose env ws st of (st1, out, e) \<Rightarrow> (st1, out))"
| "step env (Error ws) st = (case onError env ws st of (st1, out, e) \<Rightarrow> (st1, out))"

fun run :: "(environment \<times> event) list \<Rightarrow> server \<Rightarrow> server option" where
  "run [] st = Some st"
| "run ((env, ev) # rest) st =
     (if enabled ev st then run rest (fst (step env ev st)) else None)"


text \<open>
  An environment in which every socket is open, no send throws and the stack is never
  exhausted.
\<close>

definition allOpen :: environment where
  "allOpen = \<lparr>readyState = (\<lambda>c. OPEN), sendThrows = (\<lambda>c. False),
              stringifyOverflows = (\<lambda>v. False), joinOverflows = (\<lambda>v. False)\<rparr>"

text \<open>
  Nesting depth, and a value nested \<open>n\<close> arrays deep. \<^verbatim>\<open>JSON.stringify\<close> and
  \<^verbatim>\<open>join\<close> recurse once per level, so on every engine there is a depth they cannot
  reach; \<open>overflowAbove n\<close> is an environment, otherwise like \<open>allOpen\<close>, whose stack
  gives out beyond depth \<open>n\<close>.
\<close>

fun depth :: "json \<Rightarrow> nat" where
  "depth (JArr xs) = Suc (fold max (map depth xs) 0)"
| "depth (JObj fs) = Suc (fold max (map (\<lambda>p. depth (snd p)) fs) 0)"
| "depth v = 0"

primrec nest :: "nat \<Rightarrow> json \<Rightarrow> json" where
  "nest 0 v = v"
| "nest (Suc n) v = JArr [nest n v]"

definition overflowAbove :: "nat \<Rightarrow> environment" where
  "overflowAbove n =
     \<lparr>readyState = (\<lambda>c. OPEN), sendThrows = (\<lambda>c. False),
      stringifyOverflows = (\<lambda>v. n < depth v), joinOverflows = (\<lambda>v. n < depth v)\<rparr>"

section \<open>Inputs and invariants used in the statements\<close>

text \<open>
  A property that may be \<^verbatim>\<open>undefined\<close>, tested as the handlers test it: \<^verbatim>\<open>!message.k\<close>
  is \<open>\<not> provided (field message k)\<close>.
\<close>

fun provided :: "json option \<Rightarrow> bool" where
  "provided None = False"
| "provided (Some v) = truthy v"

text \<open>
  The messages the protocol calls structurally valid: a chat message with a non-empty
  string \<^verbatim>\<open>username\<close> and a non-empty string \<^verbatim>\<open>text\<close>, a typing message with a
  non-empty string \<^verbatim>\<open>username\<close> and a boolean \<^verbatim>\<open>isTyping\<close>.
\<close>

definition validChat :: "json \<Rightarrow> string \<Rightarrow> string \<Rightarrow> bool" where
  "validChat m name t \<longleftrightarrow>
     field m ''type'' = Some (JStr ''chat-message'') \<and>
     field m ''username'' = Some (JStr name) \<and> name \<noteq> [] \<and>
     field m ''text'' = Some (JStr t) \<and> t \<noteq> []"

definition validTyping :: "json \<Rightarrow> string \<Rightarrow> bool \<Rightarrow> bool" where
  "validTyping m name b \<longleftrightarrow>
     field m ''type'' = Some (JStr ''typing'') \<and>
     field m ''username'' = Some (JStr name) \<and> name \<noteq> [] \<and>
     field m ''isTyping'' = Some (JBool b)"

text \<open>
  The messages that get past the two tests the handler itself makes (lines 288 and
  319): these are the messages that bind an unbound sender.
\<close>

definition passes :: "json \<Rightarrow> bool" where
  "passes m \<longleftrightarrow>
     (field m ''type'' = Some (JStr ''chat-message'') \<and>
      provided (field m ''username'') \<and> provided (field m ''text'')) \<or>
     (field m ''type'' = Some (JStr ''typing'') \<and>
      provided (field m ''username'') \<and> field m ''isTyping'' \<noteq> None)"

text \<open>Events of a run, seen from one client: a frame of its own that passes the tests;
  its own close or error.\<close>

fun acceptedFrom :: "session \<Rightarrow> event \<Rightarrow> bool" where
  "acceptedFrom ws (Message c (Parsed m)) = (c = ws \<and> passes m)"
| "acceptedFrom ws ev = False"

fun leaves :: "session \<Rightarrow> event \<Rightarrow> bool" where
  "leaves ws (Close c) = (c = ws)"
| "leaves ws (Error c) = (c = ws)"
| "leaves ws ev = False"


text \<open>
  The messages \<^verbatim>\<open>public/client.js\<close> builds in \<^verbatim>\<open>sendMessage\<close> and
  \<^verbatim>\<open>sendTypingStatus\<close>, with any value in the place of the username or the flag.
  \<open>deepChat\<close> is a chat message with one more property, nested a million arrays deep.
\<close>

definition chat :: "json \<Rightarrow> string \<Rightarrow> json" where
  "chat username t =
     JObj [(''type'', JStr ''chat-message''), (''username'', username),
           (''text'', JStr t), (''timestamp'', JNum ''1700000000000'')]"

definition typing :: "json \<Rightarrow> json \<Rightarrow> json" where
  "typing username isTyping =
     JObj [(''type'', JStr ''typing''), (''username'', username),
           (''isTyping'', isTyping), (''timestamp'', JNum ''1700000000000'')]"

definition deepChat :: json where
  "deepChat =
     JObj [(''type'', JStr ''chat-message''), (''username'', JStr ''Alice''),
           (''text'', JStr ''hi''), (''pad'', nest 1000000 JNull)]"


text \<open>Environments like \<open>allOpen\<close>, but sending to client 1 throws; but the socket of
  client 2 is closing.\<close>

definition failingAtOne :: environment where
  "failingAtOne = allOpen\<lparr>sendThrows := (\<lambda>c. c = 1)\<rparr>"

definition closingAtTwo :: environment where
  "closingAtTwo = allOpen\<lparr>readyState := (\<lambda>c. if c = 2 then CLOSING else OPEN)\<rparr>"

text \<open>
  The invariant of the two collections: no client twice, one entry per key, every key a
  connected client, every stored username truthy.
\<close>

definition registryOk :: "server \<Rightarrow> bool" where
  "registryOk st \<longleftrightarrow>
     distinct (connectedClients st) \<and>
     distinct (map fst (clientUsernames st)) \<and>
     fst ` set (clientUsernames st) \<subseteq> set (connectedClients st) \<and>
     (\<forall>x \<in> set (clientUsernames st). truthy (snd x))"

text \<open>\<^verbatim>\<open>clientUsernames.set(ws, message.username)\<close> as a change of the state; the two
  \<^verbatim>\<open>delete\<close> calls of the close and error listeners as a change of the state.\<close>

definition bindIdentity :: "session \<Rightarrow> json \<Rightarrow> server \<Rightarrow> server" where
  "bindIdentity ws u st = st\<lparr>clientUsernames := mapSet ws u (clientUsernames st)\<rparr>"

definition unregister :: "session \<Rightarrow> server \<Rightarrow> server" where
  "unregister ws st = st\<lparr>connectedClients := setDelete ws (connectedClients st),
                          clientUsernames := mapDelete ws (clientUsernames st)\<rparr>"

text \<open>
  The sends of the two broadcasts that follow a binding, in their order: the join text
  to every open client, then the count to every open client. \<open>leaveAnnouncement\<close> is
  the pair that follows a removal.
\<close>

definition joinAnnouncement :: "environment \<Rightarrow> string \<Rightarrow> server \<Rightarrow> effect list" where
  "joinAnnouncement env name st =
     broadcastLoop env (System (name @ '' joined the chat'')) (connectedClients st) @
     broadcastLoop env (OnlineCount (getOnlineCount st)) (connectedClients st)"

definition leaveAnnouncement :: "environment \<Rightarrow> string \<Rightarrow> server \<Rightarrow> effect list" where
  "leaveAnnouncement env name st =
     broadcastLoop env (System (name @ '' left the chat'')) (connectedClients st) @
     broadcastLoop env (OnlineCount (getOnlineCount st)) (connectedClients st)"

text \<open>
  What follows the announcement when a valid message is handled: if serialising the
  message throws, the error reply of the \<^verbatim>\<open>catch\<close>; otherwise the fan-out, to all for a
  chat message, to all but the sender for a typing message.
\<close>

definition relayOrError :: "environment \<Rightarrow> session \<Rightarrow> json \<Rightarrow> server \<Rightarrow> effect list" where
  "relayOrError env ws m st =
     (if stringifyOverflows env m then [errorReply env ws]
      else if field m ''type'' = Some (JStr ''chat-message'')
        then broadcastLoop env (Relay m) (connectedClients st)
      else broadcastExceptLoop env (Relay m) ws (connectedClients st))"

text \<open>The connected clients whose socket is open, in insertion order.\<close>

definition openClients :: "environment \<Rightarrow> server \<Rightarrow> session list" where
  "openClients env st = filter (\<lambda>c. readyState env c = OPEN) (connectedClients st)"

text \<open>The sends of a handler that carry the inbound message \<open>m\<close>; those that carry the
  error envelope.\<close>

definition relayed :: "json \<Rightarrow> effect list \<Rightarrow> effect list" where
  "relayed m out = filter (\<lambda>e. payload e = Relay m) out"

definition errorReplies :: "effect list \<Rightarrow> effect list" where
  "errorReplies out = filter (\<lambda>e. payload e = ErrorMessage ''Failed to process message'') out"

section \<open>The fan-out loops\<close>

lemma broadcastLoop_map:
  "broadcastLoop env m cs = map (\<lambda>c. trySend env c m) (filter (\<lambda>c. readyState env c = OPEN) cs)"
  by (induction cs) simp_all

lemma broadcastExceptLoop_map:
  "broadcastExceptLoop env m ex cs =
     map (\<lambda>c. trySend env c m) (filter (\<lambda>c. c \<noteq> ex \<and> readyState env c = OPEN) cs)"
  by (induction cs) simp_all

lemma recipient_trySend [simp]: "recipient (trySend env c m) = c"
  by (simp add: trySend_def)

lemma payload_trySend [simp]: "payload (trySend env c m) = m"
  by (simp add: trySend_def)

lemma filter_payload_broadcastLoop:
  "filter (\<lambda>e. payload e = p) (broadcastLoop env q cs) =
     (if p = q then broadcastLoop env q cs else [])"
  by (induction cs) auto

lemma filter_payload_broadcastExceptLoop:
  "filter (\<lambda>e. payload e = p) (broadcastExceptLoop env q ex cs) =
     (if p = q then broadcastExceptLoop env q ex cs else [])"
  by (induction cs) auto

lemma payload_broadcastLoop: "e \<in> set (broadcastLoop env p cs) \<Longrightarrow> payload e = p"
  by (auto simp: broadcastLoop_map)

lemma payload_broadcastExceptLoop:
  "e \<in> set (broadcastExceptLoop env p ex cs) \<Longrightarrow> payload e = p"
  by (auto simp: broadcastExceptLoop_map)

section \<open>Sequencing\<close>

lemma andThen_None [simp]:
  "andThen (st1, out1, None) rest =
     (fst (rest st1), out1 @ fst (snd (rest st1)), snd (snd (rest st1)))"
  by (simp add: andThen_def split: prod.splits)

lemma andThen_Some [simp]: "andThen (st1, out1, Some e) rest = (st1, out1, Some e)"
  by (simp add: andThen_def)

lemma fst_andThen_same:
  assumes "\<And>s. fst (rest s) = s"
  shows "fst (andThen c rest) = fst c"
proof -
  obtain st1 out1 r where c: "c = (st1, out1, r)" by (cases c)
  show ?thesis using assms c by (cases r) simp_all
qed

lemma fst_broadcast [simp]: "fst (broadcast env m st) = st"
  by (simp add: broadcast_def split: sum.splits)

lemma fst_broadcastExcept [simp]: "fst (broadcastExcept env m ex st) = st"
  by (simp add: broadcastExcept_def split: sum.splits)

lemma fst_broadcastOnlineCount [simp]: "fst (broadcastOnlineCount env st) = st"
  by (simp add: broadcastOnlineCount_def)

lemma fst_logLine [simp]: "fst (logLine env a b st) = st"
  by (simp add: logLine_def split: sum.splits)

lemma broadcast_System [simp]:
  "broadcast env (System s) st = (st, broadcastLoop env (System s) (connectedClients st), None)"
  by (simp add: broadcast_def)

lemma broadcast_OnlineCount [simp]:
  "broadcast env (OnlineCount n) st =
     (st, broadcastLoop env (OnlineCount n) (connectedClients st), None)"
  by (simp add: broadcast_def)

lemma broadcast_Relay:
  "broadcast env (Relay m) st =
     (if stringifyOverflows env m then (st, [], Some RangeError)
      else (st, broadcastLoop env (Relay m) (connectedClients st), None))"
  by (simp add: broadcast_def)

lemma broadcastExcept_Relay:
  "broadcastExcept env (Relay m) ex st =
     (if stringifyOverflows env m then (st, [], Some RangeError)
      else (st, broadcastExceptLoop env (Relay m) ex (connectedClients st), None))"
  by (simp add: broadcastExcept_def)

section \<open>What the handlers do to the state\<close>

lemma announceNewUser_state:
  "fst (announceNewUser env ws u new st) = (if new \<and> truthy u then bindIdentity ws u st else st)"
  by (simp add: announceNewUser_def Let_def bindIdentity_def broadcastOnlineCount_def
        split: sum.splits)

lemma chatMessage_state:
  "fst (chatMessage env ws message new st) =
     (case (field message ''username'', field message ''text'') of
        (Some u, Some t) \<Rightarrow>
          if truthy u \<and> truthy t \<and> new then bindIdentity ws u st else st
      | _ \<Rightarrow> st)"
proof -
  have "fst (andThen (announceNewUser env ws u new st) (\<lambda>st1.
             andThen (logLine env u t st1) (broadcast env (Relay message)))) =
        fst (announceNewUser env ws u new st)" for u t
    by (rule fst_andThen_same) (simp add: fst_andThen_same)
  then show ?thesis
    by (auto simp: chatMessage_def announceNewUser_state split: option.splits)
qed

lemma typingMessage_state:
  "fst (typingMessage env ws message new st) =
     (case (field message ''username'', field message ''isTyping'') of
        (Some u, Some t) \<Rightarrow>
          if truthy u \<and> new then bindIdentity ws u st else st
      | _ \<Rightarrow> st)"
proof -
  have "fst (andThen (announceNewUser env ws u new st) (\<lambda>st1.
             andThen (logLine env u t st1) (broadcastExcept env (Relay message) ws))) =
        fst (announceNewUser env ws u new st)" for u t
    by (rule fst_andThen_same) (simp add: fst_andThen_same)
  then show ?thesis
    by (auto simp: typingMessage_def announceNewUser_state split: option.splits)
qed

lemma fst_onMessage_tryBody:
  "fst (onMessage env ws (Parsed m) st) = fst (tryBody env ws m st)"
  by (simp add: onMessage_def split: prod.splits option.splits)

text \<open>A frame changes the state in one case only: it passes the tests and its sender
  has no entry; then the sender is bound to the frame's \<^verbatim>\<open>username\<close>.\<close>

lemma onMessage_fst:
  "fst (onMessage env ws (Parsed m) st) =
     (if passes m \<and> \<not> mapHas (clientUsernames st) ws
      then bindIdentity ws (the (field m ''username'')) st else st)"
proof (cases "m = JNull")
  case True
  then show ?thesis
    by (simp add: fst_onMessage_tryBody tryBody_def passes_def)
next
  case False
  then show ?thesis
    unfolding fst_onMessage_tryBody tryBody_def Let_def passes_def
    by (cases "field m ''username''"; cases "field m ''text''"; cases "field m ''isTyping''")
       (auto simp: chatMessage_state typingMessage_state)
qed

lemma onMessage_Malformed_fst [simp]: "fst (onMessage env ws Malformed st) = st"
  by (simp add: onMessage_def)

lemma onMessage_state:
  "fst (onMessage env ws fr st) = st \<or>
   (\<exists>m u. fr = Parsed m \<and> field m ''username'' = Some u \<and> truthy u \<and>
        \<not> mapHas (clientUsernames st) ws \<and>
        fst (onMessage env ws fr st) = bindIdentity ws u st)"
proof (cases fr)
  case Malformed
  then show ?thesis by simp
next
  case (Parsed m)
  show ?thesis
  proof (cases "passes m \<and> \<not> mapHas (clientUsernames st) ws")
    case True
    then obtain u where "field m ''username'' = Some u" and "truthy u"
      by (cases "field m ''username''") (auto simp: passes_def)
    with True Parsed show ?thesis by (simp add: onMessage_fst)
  next
    case False
    with Parsed show ?thesis by (auto simp add: onMessage_fst)
  qed
qed

lemma onClose_state: "fst (onClose env ws st) = unregister ws st"
  by (simp add: onClose_def Let_def unregister_def broadcastOnlineCount_def
        split: option.splits sum.splits)

lemma onError_state: "fst (onError env ws st) = unregister ws st"
  by (simp add: onError_def Let_def unregister_def broadcastOnlineCount_def
        split: option.splits sum.splits)

lemma onConnection_state:
  "fst (onConnection env ws st) = st\<lparr>connectedClients := setAdd ws (connectedClients st)\<rparr>"
  by (simp add: onConnection_def Let_def)

lemma step_Close_fst [simp]: "fst (step env (Close ws) st) = unregister ws st"
  using onClose_state[of env ws st] by (auto split: prod.splits)

lemma step_Error_fst [simp]: "fst (step env (Error ws) st) = unregister ws st"
  using onError_state[of env ws st] by (auto split: prod.splits)


section \<open>The invariant\<close>

lemma registryOk_initial: "registryOk initial"
  by (simp add: registryOk_def initial_def)

lemma set_update_subset: "set (AList.update k v al) \<subseteq> insert (k, v) (set al)"
  by (induction al) auto

lemma set_delete_subset: "set (AList.delete k al) \<subseteq> set al"
  by (auto simp: AList.delete_eq)

lemma registryOk_bind:
  assumes "registryOk st" and "ws \<in> set (connectedClients st)" and "truthy u"
  shows "registryOk (bindIdentity ws u st)"
proof -
  have "\<forall>x \<in> set (AList.update ws u (clientUsernames st)). truthy (snd x)"
    using set_update_subset[of ws u "clientUsernames st"] assms
    by (auto simp: registryOk_def simp del: AList.update.simps)
  with assms show ?thesis
    by (auto simp: registryOk_def bindIdentity_def mapSet_def distinct_update dom_update
             simp del: AList.update.simps)
qed

lemma registryOk_remove:
  assumes "registryOk st"
  shows "registryOk (unregister ws st)"
proof -
  have keys: "fst ` set (AList.delete ws (clientUsernames st))
                = fst ` set (clientUsernames st) - {ws}"
    using delete_keys[of ws "clientUsernames st"]
    by (metis list.set_map set_removeAll)
  have vals: "\<forall>x \<in> set (AList.delete ws (clientUsernames st)). truthy (snd x)"
    using set_delete_subset[of ws "clientUsernames st"] assms
    by (auto simp: registryOk_def)
  from assms keys vals show ?thesis
    by (auto simp: registryOk_def unregister_def setDelete_def mapDelete_def
          distinct_delete distinct_removeAll)
qed

lemma registryOk_step:
  assumes "registryOk st" and "enabled ev st"
  shows "registryOk (fst (step env ev st))"
proof (cases ev)
  case (Connection ws)
  with assms show ?thesis
    by (auto simp: registryOk_def onConnection_state setAdd_def)
next
  case (Message ws fr)
  with assms have live: "ws \<in> set (connectedClients st)" by simp
  from onMessage_state[of env ws fr st] show ?thesis
  proof
    assume "fst (onMessage env ws fr st) = st"
    with assms Message show ?thesis by simp
  next
    assume "\<exists>m u. fr = Parsed m \<and> field m ''username'' = Some u \<and> truthy u \<and>
        \<not> mapHas (clientUsernames st) ws \<and>
        fst (onMessage env ws fr st) = bindIdentity ws u st"
    then obtain u where u: "truthy u"
      and eq: "fst (onMessage env ws fr st) = bindIdentity ws u st"
      by blast
    from registryOk_bind[OF assms(1) live u] eq Message show ?thesis by simp
  qed
next
  case (Close ws)
  then have "fst (step env ev st) = unregister ws st" by (simp only: step_Close_fst)
  with registryOk_remove[OF assms(1), of ws] show ?thesis by simp
next
  case (Error ws)
  then have "fst (step env ev st) = unregister ws st" by (simp only: step_Error_fst)
  with registryOk_remove[OF assms(1), of ws] show ?thesis by simp
qed

lemma registryOk_run:
  "registryOk st \<Longrightarrow> run es st = Some st' \<Longrightarrow> registryOk st'"
proof (induction es arbitrary: st)
  case Nil
  then show ?case by simp
next
  case (Cons a es)
  obtain env ev where a: "a = (env, ev)" by (cases a)
  from Cons.prems(2) a have en: "enabled ev st"
    and r: "run es (fst (step env ev st)) = Some st'"
    by (auto split: if_splits)
  from Cons.IH[OF registryOk_step[OF Cons.prems(1) en] r] show ?case .
qed


section \<open>Where a stored username comes from\<close>



section \<open>When a client is bound\<close>

lemma mapHas_bindIdentity:
  "mapHas (clientUsernames (bindIdentity c u st)) ws \<longleftrightarrow> c = ws \<or> mapHas (clientUsernames st) ws"
  by (auto simp: bindIdentity_def mapHas_def mapSet_def update_conv' simp del: AList.update.simps)

lemma mapHas_unregister:
  "mapHas (clientUsernames (unregister c st)) ws \<longleftrightarrow> c \<noteq> ws \<and> mapHas (clientUsernames st) ws"
  by (auto simp: unregister_def mapHas_def mapDelete_def delete_conv')

lemma connectedClients_bindIdentity [simp]:
  "connectedClients (bindIdentity ws u st) = connectedClients st"
  by (simp add: bindIdentity_def)

text \<open>
  Once a client has a username entry it keeps one until its own close or error; as long
  as it has none, only a frame of its own that passes the tests gives it one.
\<close>

lemma bound_persists:
  assumes "mapHas (clientUsernames st) ws" and "\<not> leaves ws ev"
  shows "mapHas (clientUsernames (fst (step env ev st))) ws"
proof (cases ev)
  case (Connection c)
  with assms show ?thesis by (simp add: onConnection_state)
next
  case (Message c fr)
  from onMessage_state[of env c fr st] assms(1) Message show ?thesis
    by (auto simp: mapHas_bindIdentity)
next
  case (Close c)
  then have "fst (step env ev st) = unregister c st" by (simp only: step_Close_fst)
  with assms Close show ?thesis by (simp add: mapHas_unregister)
next
  case (Error c)
  then have "fst (step env ev st) = unregister c st" by (simp only: step_Error_fst)
  with assms Error show ?thesis by (simp add: mapHas_unregister)
qed

lemma unbound_persists:
  assumes "\<not> mapHas (clientUsernames st) ws" and "\<not> acceptedFrom ws ev"
  shows "\<not> mapHas (clientUsernames (fst (step env ev st))) ws"
proof (cases ev)
  case (Connection c)
  with assms show ?thesis by (simp add: onConnection_state)
next
  case (Message c fr)
  show ?thesis
  proof (cases fr)
    case Malformed
    with Message assms show ?thesis by simp
  next
    case (Parsed m)
    with Message assms show ?thesis
      by (auto simp: onMessage_fst mapHas_bindIdentity)
  qed
next
  case (Close c)
  then have "fst (step env ev st) = unregister c st" by (simp only: step_Close_fst)
  with assms Close show ?thesis by (simp add: mapHas_unregister)
next
  case (Error c)
  then have "fst (step env ev st) = unregister c st" by (simp only: step_Error_fst)
  with assms Error show ?thesis by (simp add: mapHas_unregister)
qed

lemma bound_run:
  "mapHas (clientUsernames st) ws \<Longrightarrow> run es st = Some st' \<Longrightarrow>
   list_all (\<lambda>(env, ev). \<not> leaves ws ev) es \<Longrightarrow> mapHas (clientUsernames st') ws"
proof (induction es arbitrary: st)
  case Nil
  then show ?case by simp
next
  case (Cons a es)
  obtain env ev where a: "a = (env, ev)" by (cases a)
  from Cons.prems a have r: "run es (fst (step env ev st)) = Some st'"
    and ev: "\<not> leaves ws ev" and rest: "list_all (\<lambda>(env, ev). \<not> leaves ws ev) es"
    by (auto split: if_splits)
  from Cons.IH[OF bound_persists[OF Cons.prems(1) ev] r rest] show ?case .
qed

lemma unbound_run:
  "\<not> mapHas (clientUsernames st) ws \<Longrightarrow> run es st = Some st' \<Longrightarrow>
   list_all (\<lambda>(env, ev). \<not> acceptedFrom ws ev) es \<Longrightarrow> \<not> mapHas (clientUsernames st') ws"
proof (induction es arbitrary: st)
  case Nil
  then show ?case by simp
next
  case (Cons a es)
  obtain env ev where a: "a = (env, ev)" by (cases a)
  from Cons.prems a have r: "run es (fst (step env ev st)) = Some st'"
    and ev: "\<not> acceptedFrom ws ev"
    and rest: "list_all (\<lambda>(env, ev). \<not> acceptedFrom ws ev) es"
    by (auto split: if_splits)
  from Cons.IH[OF unbound_persists[OF Cons.prems(1) ev] r rest] show ?case .
qed

lemma unbound_on_connection:
  assumes "registryOk st" and "enabled (Connection ws) st"
  shows "\<not> mapHas (clientUsernames (fst (onConnection env ws st))) ws"
proof -
  from assms have "ws \<notin> fst ` set (clientUsernames st)"
    by (auto simp: registryOk_def)
  then show ?thesis
    by (simp add: onConnection_state mapHas_def map_of_eq_None_iff)
qed


section \<open>Accepted and dropped messages\<close>

lemma onMessage_chat_accepted:
  assumes "field m ''type'' = Some (JStr ''chat-message'')"
    and "field m ''username'' = Some (JStr name)" and "name \<noteq> []"
    and "field m ''text'' = Some (JStr t)" and "t \<noteq> []"
  shows "onMessage env ws (Parsed m) st =
     (if mapHas (clientUsernames st) ws
      then (st, relayOrError env ws m st)
      else (bindIdentity ws (JStr name) st,
            joinAnnouncement env name (bindIdentity ws (JStr name) st) @
            relayOrError env ws m (bindIdentity ws (JStr name) st)))"
proof -
  from assms(1) have "m \<noteq> JNull" by auto
  with assms show ?thesis
    by (simp add: onMessage_def tryBody_def chatMessage_def announceNewUser_def logLine_def
          broadcast_Relay broadcastOnlineCount_def relayOrError_def joinAnnouncement_def
          bindIdentity_def Let_def)
qed

lemma onMessage_typing_accepted:
  assumes "field m ''type'' = Some (JStr ''typing'')"
    and "field m ''username'' = Some (JStr name)" and "name \<noteq> []"
    and "field m ''isTyping'' = Some v" and "interpolate env v = Inr s"
  shows "onMessage env ws (Parsed m) st =
     (if mapHas (clientUsernames st) ws
      then (st, relayOrError env ws m st)
      else (bindIdentity ws (JStr name) st,
            joinAnnouncement env name (bindIdentity ws (JStr name) st) @
            relayOrError env ws m (bindIdentity ws (JStr name) st)))"
proof -
  from assms(1) have "m \<noteq> JNull" by auto
  with assms show ?thesis
    by (simp add: onMessage_def tryBody_def typingMessage_def announceNewUser_def logLine_def
          broadcastExcept_Relay broadcastOnlineCount_def relayOrError_def joinAnnouncement_def
          bindIdentity_def Let_def)
qed

lemma onMessage_valid:
  assumes "validChat m name t \<or> validTyping m name b"
  shows "onMessage env ws (Parsed m) st =
     (if mapHas (clientUsernames st) ws
      then (st, relayOrError env ws m st)
      else (bindIdentity ws (JStr name) st,
            joinAnnouncement env name (bindIdentity ws (JStr name) st) @
            relayOrError env ws m (bindIdentity ws (JStr name) st)))"
  using assms
proof
  assume "validChat m name t"
  then show ?thesis
    using onMessage_chat_accepted[of m name t env ws st]
    by (simp add: validChat_def)
next
  assume "validTyping m name b"
  then show ?thesis
    using onMessage_typing_accepted[of m name "JBool b" env _ ws st]
    by (simp add: validTyping_def)
qed

lemma payload_relayOrError:
  "e \<in> set (relayOrError env ws m st) \<Longrightarrow>
     payload e = Relay m \<or> payload e = ErrorMessage ''Failed to process message''"
  by (auto simp: relayOrError_def errorReply_def split: if_splits
        dest: payload_broadcastLoop payload_broadcastExceptLoop)

lemma relayed_joinAnnouncement [simp]: "relayed m (joinAnnouncement env name st) = []"
  by (simp add: relayed_def joinAnnouncement_def filter_payload_broadcastLoop)

lemma errorReplies_joinAnnouncement [simp]: "errorReplies (joinAnnouncement env name st) = []"
  by (simp add: errorReplies_def joinAnnouncement_def filter_payload_broadcastLoop)

lemma relayed_append [simp]: "relayed m (xs @ ys) = relayed m xs @ relayed m ys"
  by (simp add: relayed_def)

lemma errorReplies_append [simp]: "errorReplies (xs @ ys) = errorReplies xs @ errorReplies ys"
  by (simp add: errorReplies_def)

lemma relayed_relayOrError:
  "relayed m (relayOrError env ws m st) =
     (if stringifyOverflows env m then []
      else if field m ''type'' = Some (JStr ''chat-message'')
        then map (\<lambda>c. trySend env c (Relay m)) (openClients env st)
      else map (\<lambda>c. trySend env c (Relay m)) (filter (\<lambda>c. c \<noteq> ws) (openClients env st)))"
  by (simp add: relayed_def relayOrError_def errorReply_def filter_payload_broadcastLoop
        filter_payload_broadcastExceptLoop broadcastLoop_map broadcastExceptLoop_map
        openClients_def conj_commute)

lemma errorReplies_relayOrError:
  "errorReplies (relayOrError env ws m st) =
     (if stringifyOverflows env m then [errorReply env ws] else [])"
  by (simp add: errorReplies_def relayOrError_def errorReply_def filter_payload_broadcastLoop
        filter_payload_broadcastExceptLoop)

lemma relayed_valid:
  assumes "validChat m name t \<or> validTyping m name b"
  shows "relayed m (snd (onMessage env ws (Parsed m) st)) = relayed m (relayOrError env ws m st)"
    and "errorReplies (snd (onMessage env ws (Parsed m) st)) =
           errorReplies (relayOrError env ws m st)"
  using onMessage_valid[OF assms, of env ws st]
  by (simp_all add: relayed_relayOrError errorReplies_relayOrError openClients_def)


text \<open>
  A typing message with a non-empty string as username is forwarded whatever the type of
  its \<^verbatim>\<open>isTyping\<close>, as long as the flag can be printed and the message serialised.
\<close>

lemma typing_with_any_flag_is_forwarded:
  assumes "field m ''type'' = Some (JStr ''typing'')"
    and "field m ''username'' = Some (JStr name)" and "name \<noteq> []"
    and "field m ''isTyping'' = Some v" and "interpolate env v = Inr s"
    and "\<not> stringifyOverflows env m"
  shows "relayed m (snd (onMessage env ws (Parsed m) st)) =
           map (\<lambda>c. trySend env c (Relay m)) (filter (\<lambda>c. c \<noteq> ws) (openClients env st))"
  using onMessage_typing_accepted[OF assms(1-5), of ws st] assms(1,6)
  by (simp add: relayed_relayOrError openClients_def)

section \<open>Leaving\<close>

lemma onClose_unbound:
  "mapGet (clientUsernames st) ws = None \<Longrightarrow> onClose env ws st = (unregister ws st, [], None)"
  by (simp add: onClose_def unregister_def)

lemma onError_unbound:
  "mapGet (clientUsernames st) ws = None \<Longrightarrow> onError env ws st = (unregister ws st, [], None)"
  by (simp add: onError_def unregister_def)

lemma onClose_bound:
  "mapGet (clientUsernames st) ws = Some u \<Longrightarrow> truthy u \<Longrightarrow> interpolate env u = Inr name \<Longrightarrow>
   onClose env ws st = (unregister ws st, leaveAnnouncement env name (unregister ws st), None)"
  by (simp add: onClose_def unregister_def leaveAnnouncement_def broadcastOnlineCount_def Let_def)

lemma onError_bound:
  "mapGet (clientUsernames st) ws = Some u \<Longrightarrow> truthy u \<Longrightarrow> interpolate env u = Inr name \<Longrightarrow>
   onError env ws st = (unregister ws st, leaveAnnouncement env name (unregister ws st), None)"
  by (simp add: onError_def unregister_def leaveAnnouncement_def broadcastOnlineCount_def Let_def)

section \<open>Depth\<close>

lemma depth_nest: "depth (nest n v) = n + depth v"
  by (induction n) simp_all

lemma deepChat_overflows: "stringifyOverflows (overflowAbove 100000) deepChat"
  by (simp add: overflowAbove_def deepChat_def depth_nest)

lemma deepChat_valid: "validChat deepChat ''Alice'' ''hi''"
  by (simp add: validChat_def deepChat_def)

lemmas handler_defs =
  onConnection_def onMessage_def onClose_def onError_def tryBody_def chatMessage_def
  typingMessage_def announceNewUser_def logLine_def errorReply_def broadcast_def
  broadcastExcept_def broadcastOnlineCount_def getOnlineCount_def trySend_def setAdd_def
  setDelete_def mapHas_def mapGet_def mapSet_def mapDelete_def chat_def typing_def

section \<open>The online count\<close>



section \<open>Identities\<close>




section \<open>Frames that are refused\<close>

text \<open>
  C5. A frame that \<^verbatim>\<open>JSON.parse\<close> rejects is answered with one error envelope, text
  \<^verbatim>\<open>Failed to process message\<close>, sent to the sender alone, and leaves both collections
  as they were. The frame \<^verbatim>\<open>null\<close>, which parses but has no \<^verbatim>\<open>type\<close> to read, is
  answered the same way.
\<close>

theorem malformed_frame_gets_one_error_reply:
  "onMessage env ws Malformed st =
     (st, [trySend env ws (ErrorMessage ''Failed to process message'')]) \<and>
   onMessage env ws (Parsed JNull) st =
     (st, [trySend env ws (ErrorMessage ''Failed to process message'')])"
  by (simp add: onMessage_def tryBody_def errorReply_def)

theorem malformed_frame_gets_one_error_reply_witness:
  "onMessage allOpen 1 Malformed
     \<lparr>connectedClients = [0, 1], clientUsernames = [(0, JStr ''Alice'')]\<rparr> =
     (\<lparr>connectedClients = [0, 1], clientUsernames = [(0, JStr ''Alice'')]\<rparr>,
      [Sent 1 (ErrorMessage ''Failed to process message'')])"
  using malformed_frame_gets_one_error_reply
    [of allOpen 1 "\<lparr>connectedClients = [0, 1], clientUsernames = [(0, JStr ''Alice'')]\<rparr>"]
  by (simp add: trySend_def allOpen_def)

text \<open>
  C6. A chat message whose \<^verbatim>\<open>username\<close> or \<^verbatim>\<open>text\<close> is missing or empty (or falsy in
  any other way) is dropped: nothing is sent to anyone, nothing is stored.
\<close>

theorem chat_without_username_or_text_is_dropped:
  "field m ''type'' = Some (JStr ''chat-message'') \<Longrightarrow>
   \<not> provided (field m ''username'') \<or> \<not> provided (field m ''text'') \<Longrightarrow>
   onMessage env ws (Parsed m) st = (st, [])"
proof -
  assume ty: "field m ''type'' = Some (JStr ''chat-message'')"
    and bad: "\<not> provided (field m ''username'') \<or> \<not> provided (field m ''text'')"
  from ty have nn: "m \<noteq> JNull" by auto
  from bad have "chatMessage env ws m new st = (st, [], None)" for new
    by (cases "field m ''username''"; cases "field m ''text''")
       (auto simp: chatMessage_def)
  with ty nn show ?thesis
    by (simp add: onMessage_def tryBody_def)
qed

theorem chat_without_username_or_text_is_dropped_witness:
  "field (chat (JStr ''Alice'') []) ''type'' = Some (JStr ''chat-message'') \<and>
   \<not> provided (field (chat (JStr ''Alice'') []) ''text'') \<and>
   onMessage allOpen 0 (Parsed (chat (JStr ''Alice'') []))
     \<lparr>connectedClients = [0, 1], clientUsernames = []\<rparr> =
     (\<lparr>connectedClients = [0, 1], clientUsernames = []\<rparr>, [])"
proof -
  have ty: "field (chat (JStr ''Alice'') []) ''type'' = Some (JStr ''chat-message'')"
    by (simp add: chat_def)
  have bad: "\<not> provided (field (chat (JStr ''Alice'') []) ''username'') \<or>
             \<not> provided (field (chat (JStr ''Alice'') []) ''text'')"
    by (simp add: chat_def)
  show ?thesis
    using ty chat_without_username_or_text_is_dropped[OF ty bad]
    by (simp add: chat_def)
qed




section \<open>Send failures during a fan-out\<close>

text \<open>
  C9. Both fan-outs return the two collections as they found them. Once the message is
  serialised they call \<^verbatim>\<open>send\<close> once for every connected client that is open (but for
  the excluded one), in order, whichever of these calls throw; if serialising throws,
  they send nothing.
\<close>

theorem fanout_survives_send_failures:
  "fst (broadcast env m st) = st \<and>
   fst (broadcastExcept env m ex st) = st \<and>
   (stringify env m = Inr s \<longrightarrow>
      snd (broadcast env m st) =
        (map (\<lambda>c. if sendThrows env c then SendError c s else Sent c s)
             (filter (\<lambda>c. readyState env c = OPEN) (connectedClients st)), None) \<and>
      snd (broadcastExcept env m ex st) =
        (map (\<lambda>c. if sendThrows env c then SendError c s else Sent c s)
             (filter (\<lambda>c. c \<noteq> ex \<and> readyState env c = OPEN) (connectedClients st)), None)) \<and>
   (stringify env m = Inl e \<longrightarrow>
      snd (broadcast env m st) = ([], Some e) \<and>
      snd (broadcastExcept env m ex st) = ([], Some e))"
  by (cases "stringify env m")
     (simp_all add: broadcast_def broadcastExcept_def broadcastLoop_map
        broadcastExceptLoop_map trySend_def)

theorem fanout_survives_send_failures_witness:
  "stringify failingAtOne (OnlineCount 2) = Inr (OnlineCount 2) \<and>
   broadcast failingAtOne (OnlineCount 2)
     \<lparr>connectedClients = [0, 1, 2], clientUsernames = [(0, JStr ''Al''), (1, JStr ''Bo'')]\<rparr> =
     (\<lparr>connectedClients = [0, 1, 2], clientUsernames = [(0, JStr ''Al''), (1, JStr ''Bo'')]\<rparr>,
      [Sent 0 (OnlineCount 2), SendError 1 (OnlineCount 2), Sent 2 (OnlineCount 2)], None)"
  using fanout_survives_send_failures
    [of failingAtOne "OnlineCount 2"
        "\<lparr>connectedClients = [0, 1, 2], clientUsernames = [(0, JStr ''Al''), (1, JStr ''Bo'')]\<rparr>"
        _ "OnlineCount 2"]
  by (simp add: failingAtOne_def allOpen_def prod_eq_iff)


section \<open>Joining\<close>

text \<open>
  C2, as the code has it. A client connects; none of its frames so far has passed the
  handler's tests. Its structurally valid chat or typing message then stores the
  username and broadcasts the join text and then the count, once each, before the
  message is fanned out (or, if it cannot be serialised, answered with the error
  envelope). After that, and until the client closes or errors, a valid message from it
  is only fanned out: no send of the handler is a join text or a count.
\<close>

theorem first_accepted_message_announces_once:
  "run before initial = Some st0 \<Longrightarrow>
   enabled (Connection ws) st0 \<Longrightarrow>
   run quiet (fst (onConnection env0 ws st0)) = Some st1 \<Longrightarrow>
   list_all (\<lambda>(e, ev). \<not> acceptedFrom ws ev) quiet \<Longrightarrow>
   validChat m name t \<or> validTyping m name b \<Longrightarrow>
   run later (fst (onMessage env ws (Parsed m) st1)) = Some st2 \<Longrightarrow>
   list_all (\<lambda>(e, ev). \<not> leaves ws ev) later \<Longrightarrow>
   validChat m' name' t' \<or> validTyping m' name' b' \<Longrightarrow>
   onMessage env ws (Parsed m) st1 =
     (bindIdentity ws (JStr name) st1,
      joinAnnouncement env name (bindIdentity ws (JStr name) st1) @
      relayOrError env ws m (bindIdentity ws (JStr name) st1)) \<and>
   onMessage env' ws (Parsed m') st2 = (st2, relayOrError env' ws m' st2) \<and>
   (\<forall>e \<in> set (relayOrError env' ws m' st2).
      payload e = Relay m' \<or> payload e = ErrorMessage ''Failed to process message'')"
proof -
  assume before: "run before initial = Some st0"
    and conn: "enabled (Connection ws) st0"
    and quiet: "run quiet (fst (onConnection env0 ws st0)) = Some st1"
    and noacc: "list_all (\<lambda>(e, ev). \<not> acceptedFrom ws ev) quiet"
    and v: "validChat m name t \<or> validTyping m name b"
    and later: "run later (fst (onMessage env ws (Parsed m) st1)) = Some st2"
    and stays: "list_all (\<lambda>(e, ev). \<not> leaves ws ev) later"
    and v': "validChat m' name' t' \<or> validTyping m' name' b'"
  from before registryOk_initial have "registryOk st0"
    by (simp add: registryOk_run)
  from unbound_on_connection[OF this conn]
  have "\<not> mapHas (clientUsernames (fst (onConnection env0 ws st0))) ws" .
  from unbound_run[OF this quiet noacc]
  have unbound: "\<not> mapHas (clientUsernames st1) ws" .
  with onMessage_valid[OF v, of env ws st1]
  have first: "onMessage env ws (Parsed m) st1 =
     (bindIdentity ws (JStr name) st1,
      joinAnnouncement env name (bindIdentity ws (JStr name) st1) @
      relayOrError env ws m (bindIdentity ws (JStr name) st1))"
    by simp
  then have "mapHas (clientUsernames (fst (onMessage env ws (Parsed m) st1))) ws"
    by (simp add: mapHas_bindIdentity)
  from bound_run[OF this later stays] have "mapHas (clientUsernames st2) ws" .
  with onMessage_valid[OF v', of env' ws st2]
  have "onMessage env' ws (Parsed m') st2 = (st2, relayOrError env' ws m' st2)"
    by simp
  with first show ?thesis
    using payload_relayOrError[of _ env' ws m' st2] by blast
qed

theorem first_accepted_message_announces_once_witness:
  "onMessage allOpen 0 (Parsed (typing (JStr ''Alice'') (JBool True)))
     \<lparr>connectedClients = [1, 0], clientUsernames = []\<rparr> =
     (\<lparr>connectedClients = [1, 0], clientUsernames = [(0, JStr ''Alice'')]\<rparr>,
      [Sent 1 (System ''Alice joined the chat''), Sent 0 (System ''Alice joined the chat''),
       Sent 1 (OnlineCount 1), Sent 0 (OnlineCount 1),
       Sent 1 (Relay (typing (JStr ''Alice'') (JBool True)))]) \<and>
   onMessage allOpen 0 (Parsed (chat (JStr ''Alice'') ''hi''))
     \<lparr>connectedClients = [1, 0],
      clientUsernames = [(0, JStr ''Alice''), (1, JStr ''Bob'')]\<rparr> =
     (\<lparr>connectedClients = [1, 0],
       clientUsernames = [(0, JStr ''Alice''), (1, JStr ''Bob'')]\<rparr>,
      [Sent 1 (Relay (chat (JStr ''Alice'') ''hi'')),
       Sent 0 (Relay (chat (JStr ''Alice'') ''hi''))])"
proof -
  let ?quiet = "[(allOpen, Message 0 Malformed),
                 (allOpen, Message 0 (Parsed (chat (JStr []) ''hi'')))]"
  let ?later = "[(allOpen, Message 1 (Parsed (chat (JStr ''Bob'') ''yo'')))]"
  have before: "run [(allOpen, Connection 1)] initial =
                  Some \<lparr>connectedClients = [1], clientUsernames = []\<rparr>"
    by (simp add: initial_def allOpen_def handler_defs)
  have conn: "enabled (Connection 0) \<lparr>connectedClients = [1], clientUsernames = []\<rparr>"
    by simp
  have quiet: "run ?quiet
                 (fst (onConnection allOpen 0 \<lparr>connectedClients = [1], clientUsernames = []\<rparr>))
               = Some \<lparr>connectedClients = [1, 0], clientUsernames = []\<rparr>"
    by (simp add: allOpen_def handler_defs)
  have noacc: "list_all (\<lambda>(e, ev). \<not> acceptedFrom 0 ev) ?quiet"
    by (simp add: passes_def chat_def)
  have v: "validChat (typing (JStr ''Alice'') (JBool True)) ''Alice'' t \<or>
           validTyping (typing (JStr ''Alice'') (JBool True)) ''Alice'' True" for t
    by (simp add: validTyping_def typing_def)
  have later: "run ?later
                 (fst (onMessage allOpen 0 (Parsed (typing (JStr ''Alice'') (JBool True)))
                        \<lparr>connectedClients = [1, 0], clientUsernames = []\<rparr>))
               = Some \<lparr>connectedClients = [1, 0],
                       clientUsernames = [(0, JStr ''Alice''), (1, JStr ''Bob'')]\<rparr>"
    by (simp add: allOpen_def handler_defs)
  have stays: "list_all (\<lambda>(e, ev). \<not> leaves 0 ev) ?later"
    by simp
  have v': "validChat (chat (JStr ''Alice'') ''hi'') ''Alice'' ''hi'' \<or>
            validTyping (chat (JStr ''Alice'') ''hi'') ''Alice'' b" for b
    by (simp add: validChat_def chat_def)
  show ?thesis
    using first_accepted_message_announces_once
            [OF before conn quiet noacc v later stays v', of allOpen]
    by (simp add: bindIdentity_def mapSet_def joinAnnouncement_def relayOrError_def
          getOnlineCount_def trySend_def allOpen_def typing_def chat_def)
qed

text \<open>
  C2 as written fails. In the first run a typing message whose \<^verbatim>\<open>isTyping\<close> is the
  string \<^verbatim>\<open>yes\<close>, which is not structurally valid, binds client 0 and is announced; in
  the second a chat message whose \<^verbatim>\<open>username\<close> is the object \<^verbatim>\<open>{"toString": 1}\<close>
  binds client 0 and nothing is announced. In both, the first structurally valid
  message of client 0 comes next and is only fanned out.
\<close>

theorem first_valid_message_after_an_accepted_one_is_not_announced:
  "run [(allOpen, Connection 0), (allOpen, Connection 1),
        (allOpen, Message 0 (Parsed (typing (JStr ''Alice'') (JStr ''yes''))))]
       initial =
     Some \<lparr>connectedClients = [0, 1], clientUsernames = [(0, JStr ''Alice'')]\<rparr> \<and>
   onMessage allOpen 0 (Parsed (chat (JStr ''Alice'') ''hi''))
     \<lparr>connectedClients = [0, 1], clientUsernames = [(0, JStr ''Alice'')]\<rparr> =
     (\<lparr>connectedClients = [0, 1], clientUsernames = [(0, JStr ''Alice'')]\<rparr>,
      [Sent 0 (Relay (chat (JStr ''Alice'') ''hi'')),
       Sent 1 (Relay (chat (JStr ''Alice'') ''hi''))]) \<and>
   run [(allOpen, Connection 0), (allOpen, Connection 1),
        (allOpen, Message 0 (Parsed (chat (JObj [(''toString'', JNum ''1'')]) ''hi'')))]
       initial =
     Some \<lparr>connectedClients = [0, 1],
           clientUsernames = [(0, JObj [(''toString'', JNum ''1'')])]\<rparr> \<and>
   onMessage allOpen 0 (Parsed (chat (JStr ''Alice'') ''hi''))
     \<lparr>connectedClients = [0, 1],
      clientUsernames = [(0, JObj [(''toString'', JNum ''1'')])]\<rparr> =
     (\<lparr>connectedClients = [0, 1],
       clientUsernames = [(0, JObj [(''toString'', JNum ''1'')])]\<rparr>,
      [Sent 0 (Relay (chat (JStr ''Alice'') ''hi'')),
       Sent 1 (Relay (chat (JStr ''Alice'') ''hi''))])"
  by (simp add: initial_def allOpen_def handler_defs)

text \<open>
  C7, as the code has it. A valid message from a client that already has a username
  keeps the stored username, whatever username the message carries, and is only fanned
  out (or answered with the error envelope if it cannot be serialised): no join text, no
  count.
\<close>

theorem later_messages_keep_the_first_identity:
  "validChat m name t \<or> validTyping m name b \<Longrightarrow>
   mapGet (clientUsernames st) ws = Some old \<Longrightarrow>
   fst (onMessage env ws (Parsed m) st) = st \<and>
   mapGet (clientUsernames (fst (onMessage env ws (Parsed m) st))) ws = Some old \<and>
   snd (onMessage env ws (Parsed m) st) = relayOrError env ws m st \<and>
   (\<forall>e \<in> set (snd (onMessage env ws (Parsed m) st)).
      payload e = Relay m \<or> payload e = ErrorMessage ''Failed to process message'')"
proof -
  assume v: "validChat m name t \<or> validTyping m name b"
    and old: "mapGet (clientUsernames st) ws = Some old"
  from old have "mapHas (clientUsernames st) ws"
    by (simp add: mapGet_def mapHas_def)
  with onMessage_valid[OF v, of env ws st]
  have "onMessage env ws (Parsed m) st = (st, relayOrError env ws m st)" by simp
  with old payload_relayOrError[of _ env ws m st] show ?thesis by auto
qed

theorem later_messages_keep_the_first_identity_witness:
  "validChat (chat (JStr ''Bob'') ''hi'') ''Bob'' ''hi'' \<and>
   mapGet [(0, JStr ''Alice'')] 0 = Some (JStr ''Alice'') \<and>
   onMessage allOpen 0 (Parsed (chat (JStr ''Bob'') ''hi''))
     \<lparr>connectedClients = [0, 1], clientUsernames = [(0, JStr ''Alice'')]\<rparr> =
     (\<lparr>connectedClients = [0, 1], clientUsernames = [(0, JStr ''Alice'')]\<rparr>,
      [Sent 0 (Relay (chat (JStr ''Bob'') ''hi'')), Sent 1 (Relay (chat (JStr ''Bob'') ''hi''))])"
proof -
  have v: "validChat (chat (JStr ''Bob'') ''hi'') ''Bob'' ''hi'' \<or>
           validTyping (chat (JStr ''Bob'') ''hi'') ''Bob'' b" for b
    by (simp add: validChat_def chat_def)
  have old: "mapGet (clientUsernames
               \<lparr>connectedClients = [0, 1], clientUsernames = [(0, JStr ''Alice'')]\<rparr>) 0
             = Some (JStr ''Alice'')"
    by (simp add: mapGet_def)
  show ?thesis
    using later_messages_keep_the_first_identity[OF v old, of allOpen]
    by (simp add: allOpen_def handler_defs validChat_def)
qed

text \<open>
  C7 as written fails: Alice's client sends a chat message under the name Bob, and the
  stored username is still Alice.
\<close>

theorem rename_is_ignored:
  "clientUsernames (fst (onMessage allOpen 0 (Parsed (chat (JStr ''Bob'') ''hi''))
      \<lparr>connectedClients = [0, 1], clientUsernames = [(0, JStr ''Alice'')]\<rparr>)) =
     [(0, JStr ''Alice'')]"
  by (simp add: allOpen_def handler_defs)

section \<open>Who receives a message\<close>

text \<open>
  C3, as the code has it. A valid chat message that can be serialised is sent once to
  every connected client whose socket is open, the sender among them; a valid typing
  message that can be serialised is sent once to every such client but the sender; a
  client whose socket is not open gets nothing. A valid message on which
  \<^verbatim>\<open>JSON.stringify\<close> throws is sent to nobody, and its sender is answered with one error
  envelope.
\<close>

theorem chat_goes_to_all_typing_to_the_others:
  "(validChat m name t \<longrightarrow>
      relayed m (snd (onMessage env ws (Parsed m) st)) =
        (if stringifyOverflows env m then []
         else map (\<lambda>c. trySend env c (Relay m)) (openClients env st)) \<and>
      errorReplies (snd (onMessage env ws (Parsed m) st)) =
        (if stringifyOverflows env m then [errorReply env ws] else [])) \<and>
   (validTyping m' name' b \<longrightarrow>
      relayed m' (snd (onMessage env' ws' (Parsed m') st')) =
        (if stringifyOverflows env' m' then []
         else map (\<lambda>c. trySend env' c (Relay m'))
                  (filter (\<lambda>c. c \<noteq> ws') (openClients env' st'))) \<and>
      errorReplies (snd (onMessage env' ws' (Parsed m') st')) =
        (if stringifyOverflows env' m' then [errorReply env' ws'] else []))"
proof -
  have "validChat m name t \<Longrightarrow> field m ''type'' = Some (JStr ''chat-message'')"
    by (simp add: validChat_def)
  moreover have "validTyping m' name' b \<Longrightarrow>
      field m' ''type'' \<noteq> Some (JStr ''chat-message'')"
    by (simp add: validTyping_def)
  ultimately show ?thesis
    using relayed_valid[of m name t _ env ws st] relayed_valid[of m' name' _ b env' ws' st']
    by (simp add: relayed_relayOrError errorReplies_relayOrError)
qed

theorem chat_goes_to_all_typing_to_the_others_witness:
  "validChat (chat (JStr ''Alice'') ''hi'') ''Alice'' ''hi'' \<and>
   relayed (chat (JStr ''Alice'') ''hi'')
     (snd (onMessage closingAtTwo 0 (Parsed (chat (JStr ''Alice'') ''hi''))
        \<lparr>connectedClients = [0, 1, 2], clientUsernames = []\<rparr>)) =
     [Sent 0 (Relay (chat (JStr ''Alice'') ''hi'')), Sent 1 (Relay (chat (JStr ''Alice'') ''hi''))] \<and>
   validTyping (typing (JStr ''Alice'') (JBool True)) ''Alice'' True \<and>
   relayed (typing (JStr ''Alice'') (JBool True))
     (snd (onMessage closingAtTwo 0 (Parsed (typing (JStr ''Alice'') (JBool True)))
        \<lparr>connectedClients = [0, 1, 2], clientUsernames = []\<rparr>)) =
     [Sent 1 (Relay (typing (JStr ''Alice'') (JBool True)))]"
proof -
  have c: "validChat (chat (JStr ''Alice'') ''hi'') ''Alice'' ''hi''"
    by (simp add: validChat_def chat_def)
  have t: "validTyping (typing (JStr ''Alice'') (JBool True)) ''Alice'' True"
    by (simp add: validTyping_def typing_def)
  show ?thesis
    using c t
      chat_goes_to_all_typing_to_the_others
        [of "chat (JStr ''Alice'') ''hi''" "''Alice''" "''hi''" closingAtTwo 0
            "\<lparr>connectedClients = [0, 1, 2], clientUsernames = []\<rparr>"
            "typing (JStr ''Alice'') (JBool True)" "''Alice''" True closingAtTwo 0
            "\<lparr>connectedClients = [0, 1, 2], clientUsernames = []\<rparr>"]
    by (simp add: openClients_def closingAtTwo_def allOpen_def trySend_def)
qed

text \<open>
  C3 as written fails. \<open>deepChat\<close> is a valid chat message with an extra property nested
  a million arrays deep; on an engine whose stack gives out beyond a hundred thousand
  levels (the default stack of Node does so earlier) the bound client 0 sends it, nobody
  receives it, and client 0 gets the error envelope.
\<close>

theorem deep_valid_chat_is_not_relayed:
  "validChat deepChat ''Alice'' ''hi'' \<and>
   onMessage (overflowAbove 100000) 0 (Parsed deepChat)
     \<lparr>connectedClients = [0, 1], clientUsernames = [(0, JStr ''Alice'')]\<rparr> =
     (\<lparr>connectedClients = [0, 1], clientUsernames = [(0, JStr ''Alice'')]\<rparr>,
      [Sent 0 (ErrorMessage ''Failed to process message'')])"
proof -
  have "field deepChat ''type'' = Some (JStr ''chat-message'')"
    and "field deepChat ''username'' = Some (JStr ''Alice'')"
    and "field deepChat ''text'' = Some (JStr ''hi'')"
    by (simp_all add: deepChat_def)
  from onMessage_chat_accepted[OF this(1) this(2) _ this(3), of "overflowAbove 100000" 0
      "\<lparr>connectedClients = [0, 1], clientUsernames = [(0, JStr ''Alice'')]\<rparr>"]
  have "onMessage (overflowAbove 100000) 0 (Parsed deepChat)
     \<lparr>connectedClients = [0, 1], clientUsernames = [(0, JStr ''Alice'')]\<rparr> =
     (\<lparr>connectedClients = [0, 1], clientUsernames = [(0, JStr ''Alice'')]\<rparr>,
      [errorReply (overflowAbove 100000) 0])"
    using deepChat_overflows by (simp add: mapHas_def relayOrError_def)
  then show ?thesis
    using deepChat_valid by (simp add: errorReply_def trySend_def overflowAbove_def)
qed

section \<open>Leaving\<close>

text \<open>
  C4 at the input where the code departs from it. A client is bound by a chat message
  whose \<^verbatim>\<open>username\<close> is the object \<^verbatim>\<open>{"toString": 1}\<close>. When it closes (or errors) it
  is removed from both collections, but the template literal that renders the username
  throws a \<^verbatim>\<open>TypeError\<close> before anything is broadcast, and nothing catches it.
\<close>

theorem close_of_unprintable_identity_throws:
  "run [(allOpen, Connection 0), (allOpen, Connection 1),
        (allOpen, Message 0 (Parsed (chat (JObj [(''toString'', JNum ''1'')]) ''hi'')))]
       initial =
     Some \<lparr>connectedClients = [0, 1],
           clientUsernames = [(0, JObj [(''toString'', JNum ''1'')])]\<rparr> \<and>
   onClose allOpen 0
     \<lparr>connectedClients = [0, 1],
      clientUsernames = [(0, JObj [(''toString'', JNum ''1'')])]\<rparr> =
     (\<lparr>connectedClients = [1], clientUsernames = []\<rparr>, [], Some TypeError) \<and>
   onError allOpen 0
     \<lparr>connectedClients = [0, 1],
      clientUsernames = [(0, JObj [(''toString'', JNum ''1'')])]\<rparr> =
     (\<lparr>connectedClients = [1], clientUsernames = []\<rparr>, [], Some TypeError)"
  by (simp add: initial_def allOpen_def handler_defs)

end
